theory Spec2Isabelle
  imports Complex_Main "HOL-Library.AList"
begin

section \<open>Nemesis kart: the race simulation engine of \<^verbatim>\<open>nemesis_kart.py\<close>\<close>

text \<open>
  The embedding follows the Python source function by function.
  \<^item> Python's unbounded \<^verbatim>\<open>int\<close> is \<^typ>\<open>int\<close>.
  \<^item> Python's \<^verbatim>\<open>float\<close> (positions, speeds, probabilities) is \<^typ>\<open>rat\<close>: exact
    arithmetic stands for the rounded one. The properties below compare positions and
    probabilities, they never depend on a rounding.
  \<^item> A \<^verbatim>\<open>dict\<close> is an association list in insertion order, read with
    \<^const>\<open>map_of\<close> and written with \<^const>\<open>AList.update\<close> (which replaces the value of
    a present key in place and appends an absent one, as Python does).
  \<^item> A raised exception is a value \<open>Inl e\<close> of the result type.
  \<^item> The calls to \<^verbatim>\<open>random\<close> take their results from a parameter.
  \<^item> The global \<^verbatim>\<open>CONFIG\<close> dictionary is a parameter \<open>cfg\<close> of every function that
    reads it; \<^verbatim>\<open>debug_log\<close> only writes to the log buffer and is left out.
\<close>

subsection \<open>Data\<close>

datatype item = Boost | Green_Shell | Red_Shell | Banana

datatype trait = Aggressive | Shell_Shocked | Target_Fixated | Slippery

datatype error = KeyError | NameError | AttributeError | ValueError

datatype action = Drive | Use_item

record config =
  track_length :: int
  num_racers :: int
  player_controlled :: bool
  base_speed_min :: int
  base_speed_max :: int
  boost_speed_bonus :: int
  boost_duration :: int
  shell_hit_speed_penalty :: int
  shell_hit_duration :: int
  banana_hit_speed_penalty :: int
  banana_hit_duration :: int
  item_box_spacing :: int
  item_chance_boost :: rat
  item_chance_green_shell :: rat
  item_chance_red_shell :: rat
  item_chance_banana :: rat
  catch_up_assist_threshold :: int
  catch_up_item_boost_mult :: rat
  nemesis_hit_relationship_penalty :: int
  nemesis_overtake_relationship_penalty :: int
  nemesis_finish_ahead_penalty :: int
  nemesis_targeting_threshold :: int
  nemesis_trait_threshold :: int

text \<open>
  The defaults of the configuration panel, after the normalisation of the four item
  chances by their sum (lines 8 to 40).
\<close>

definition CONFIG :: config where
  "CONFIG = \<lparr>
     track_length = 1000,
     num_racers = 8,
     player_controlled = True,
     base_speed_min = 8,
     base_speed_max = 12,
     boost_speed_bonus = 15,
     boost_duration = 3,
     shell_hit_speed_penalty = - 20,
     shell_hit_duration = 2,
     banana_hit_speed_penalty = - 15,
     banana_hit_duration = 3,
     item_box_spacing = 200,
     item_chance_boost = (4 / 10) / (4 / 10 + 3 / 10 + 2 / 10 + 1 / 10),
     item_chance_green_shell = (3 / 10) / (4 / 10 + 3 / 10 + 2 / 10 + 1 / 10),
     item_chance_red_shell = (2 / 10) / (4 / 10 + 3 / 10 + 2 / 10 + 1 / 10),
     item_chance_banana = (1 / 10) / (4 / 10 + 3 / 10 + 2 / 10 + 1 / 10),
     catch_up_assist_threshold = 150,
     catch_up_item_boost_mult = 3 / 2,
     nemesis_hit_relationship_penalty = - 3,
     nemesis_overtake_relationship_penalty = - 1,
     nemesis_finish_ahead_penalty = - 2,
     nemesis_targeting_threshold = - 5,
     nemesis_trait_threshold = 3 \<rparr>"

text \<open>
  A racer. The attribute \<^verbatim>\<open>last_hit_by_item\<close> is not assigned by the constructor:
  the outer \<open>option\<close> of the field \<open>last_hit_by_item\<close> says whether the attribute
  exists (\<open>None\<close>: it does not), the inner one is Python's \<^verbatim>\<open>None\<close>.
\<close>

record racer =
  name :: string
  is_player :: bool
  position :: rat
  speed :: rat
  base_speed :: rat
  current_item :: "item option"
  item_uses :: "(item \<times> int) list"
  times_hit_by :: "(item \<times> int) list"
  boost_timer :: int
  hit_timer :: int
  last_hit_by :: "string option"
  last_hit_by_item :: "item option option"
  relationships :: "(string \<times> int) list"
  traits :: "trait set"
  hit_by_count :: "(string \<times> int) list"
  hit_others_count :: "(string \<times> int) list"
  next_item_box_pos :: rat

record event =
  attacker :: string
  target :: string
  ev_item :: item

record obstacle =
  obs_type :: item
  obs_position :: rat
  owner :: string

text \<open>
  The dictionary of \<^verbatim>\<open>Game.get_state\<close>. \<open>gs_racers\<close> and \<open>gs_obstacles\<close> are the
  game's own dictionary and list (the same objects), \<open>positions\<close> is a list built at
  the call and never changed afterwards.
\<close>

record game_state =
  gs_racers :: "(string \<times> racer) list"
  positions :: "(string \<times> rat) list"
  gs_obstacles :: "obstacle list"
  pending_events :: "event list"

record game =
  racers :: "(string \<times> racer) list"
  player_name :: string
  winner :: "string option"
  step_count :: int
  game_over :: bool
  last_positions :: "(string \<times> rat) list"
  obstacles :: "obstacle list"

text \<open>The results of the calls to \<^verbatim>\<open>random\<close> that one racer makes in one step.\<close>

record draws =
  pick :: nat
  u_close :: rat
  u_aggressive :: rat
  u_item :: rat

subsection \<open>Racer\<close>

definition Racer_init :: "config \<Rightarrow> rat \<Rightarrow> string \<Rightarrow> bool \<Rightarrow> racer" where
  "Racer_init cfg uniform nm player = \<lparr>
     name = nm,
     is_player = player,
     position = 0,
     speed = uniform,
     base_speed = uniform,
     current_item = None,
     item_uses = [(Boost, 0), (Green_Shell, 0), (Red_Shell, 0), (Banana, 0)],
     times_hit_by = [(Green_Shell, 0), (Red_Shell, 0), (Banana, 0)],
     boost_timer = 0,
     hit_timer = 0,
     last_hit_by = None,
     last_hit_by_item = None,
     relationships = [],
     traits = {},
     hit_by_count = [],
     hit_others_count = [],
     next_item_box_pos = of_int (item_box_spacing cfg) \<rparr>"

fun initialize_relationships :: "string list \<Rightarrow> racer \<Rightarrow> racer" where
  "initialize_relationships [] self = self"
| "initialize_relationships (r_name # all_racers) self =
     initialize_relationships all_racers
       (if r_name \<noteq> name self
        then self\<lparr> relationships := AList.update r_name 0 (relationships self),
                   hit_by_count := AList.update r_name 0 (hit_by_count self),
                   hit_others_count := AList.update r_name 0 (hit_others_count self) \<rparr>
        else self)"

definition update_relationship :: "string \<Rightarrow> int \<Rightarrow> racer \<Rightarrow> racer" where
  "update_relationship other_racer_name change self =
     (case map_of (relationships self) other_racer_name of
        None \<Rightarrow> self
      | Some s \<Rightarrow>
          self\<lparr> relationships :=
            AList.update other_racer_name (max (- 10) (min 10 (s + change))) (relationships self) \<rparr>)"

definition add_trait :: "trait \<Rightarrow> racer \<Rightarrow> racer" where
  "add_trait t self = (if t \<notin> traits self then self\<lparr> traits := insert t (traits self) \<rparr> else self)"

text \<open>\<^verbatim>\<open>d[k]\<close>: a missing key raises.\<close>

definition lookup :: "('k \<times> 'v) list \<Rightarrow> 'k \<Rightarrow> error + 'v" where
  "lookup d k = (case map_of d k of None \<Rightarrow> Inl KeyError | Some v \<Rightarrow> Inr v)"

text \<open>\<^verbatim>\<open>d.get(k, 0)\<close>.\<close>

definition get0 :: "('k \<times> int) list \<Rightarrow> 'k \<Rightarrow> int" where
  "get0 d k = (case map_of d k of None \<Rightarrow> 0 | Some v \<Rightarrow> v)"

definition check_trait_conditions :: "config \<Rightarrow> racer \<Rightarrow> error + racer" where
  "check_trait_conditions cfg self =
     (case lookup (item_uses self) Green_Shell of Inl e \<Rightarrow> Inl e | Inr ug \<Rightarrow>
     (case lookup (item_uses self) Red_Shell of Inl e \<Rightarrow> Inl e | Inr ur \<Rightarrow>
     (let offensive_uses = ug + ur;
          s1 = (if offensive_uses \<ge> nemesis_trait_threshold cfg \<and> Aggressive \<notin> traits self
                then add_trait Aggressive self else self)
      in
     (case lookup (times_hit_by s1) Green_Shell of Inl e \<Rightarrow> Inl e | Inr hg \<Rightarrow>
     (case lookup (times_hit_by s1) Red_Shell of Inl e \<Rightarrow> Inl e | Inr hr \<Rightarrow>
     (let shell_hits = hg + hr;
          s2 = (if shell_hits \<ge> nemesis_trait_threshold cfg \<and> Shell_Shocked \<notin> traits s1
                then add_trait Shell_Shocked s1 else s1);
          has_strong_negative =
            list_ex (\<lambda>rel. rel \<le> nemesis_targeting_threshold cfg) (map snd (relationships s2))
      in
      if has_strong_negative \<and> Target_Fixated \<notin> traits s2 then Inr (add_trait Target_Fixated s2)
      else if \<not> has_strong_negative \<and> Target_Fixated \<in> traits s2
      then Inr (s2\<lparr> traits := traits s2 - {Target_Fixated} \<rparr>)
      else Inr s2))))))"

text \<open>\<^verbatim>\<open>xs.index(x)\<close>: the first index of \<open>x\<close>, if any.\<close>

fun index_of :: "'a \<Rightarrow> 'a list \<Rightarrow> nat option" where
  "index_of x [] = None"
| "index_of x (y # ys) = (if y = x then Some 0 else map_option Suc (index_of x ys))"

text \<open>
  \<^verbatim>\<open>min(xs, key=f)\<close>: the first element with the least key; the key function of
  every element runs (and may raise); on an empty list the call raises.
\<close>

fun py_min :: "('a \<Rightarrow> error + 'b::linorder) \<Rightarrow> 'a list \<Rightarrow> ('a \<times> 'b) option \<Rightarrow> error + ('a \<times> 'b) option" where
  "py_min key [] best = Inr best"
| "py_min key (x # xs) best =
     (case key x of Inl e \<Rightarrow> Inl e
      | Inr k \<Rightarrow>
          py_min key xs
            (case best of None \<Rightarrow> Some (x, k)
             | Some (b, kb) \<Rightarrow> if k < kb then Some (x, k) else Some (b, kb)))"

definition min_by :: "('a \<Rightarrow> error + 'b::linorder) \<Rightarrow> 'a list \<Rightarrow> error + 'a" where
  "min_by key xs =
     (case py_min key xs None of Inl e \<Rightarrow> Inl e
      | Inr None \<Rightarrow> Inl ValueError
      | Inr (Some (x, k)) \<Rightarrow> Inr x)"

text \<open>
  Lines 133 and 134, \<^verbatim>\<open>[r for r_name, r_pos in ps if cond(r_pos)]\<close>: the loop binds
  \<^verbatim>\<open>r_name\<close> and \<^verbatim>\<open>r_pos\<close>, and the element expression \<^verbatim>\<open>r\<close> is a name that
  neither the comprehension, nor \<^verbatim>\<open>decide_action\<close>, nor the module binds. The
  expression is evaluated once for each pair that passes the condition, and raises
  \<^verbatim>\<open>NameError\<close> there; with no such pair the result is the empty list.
\<close>

definition comprehension_r :: "(rat \<Rightarrow> bool) \<Rightarrow> (string \<times> rat) list \<Rightarrow> error + racer list" where
  "comprehension_r cond ps =
     (if list_ex (\<lambda>(r_name, r_pos). cond r_pos) ps then Inl NameError else Inr [])"

text \<open>Lines 137 to 145: the most hated of the racers at or below the targeting threshold.\<close>

definition nemesis_target :: "config \<Rightarrow> game_state \<Rightarrow> racer \<Rightarrow> error + racer option" where
  "nemesis_target cfg gs self =
     (let strong_negative_targets =
            filter (\<lambda>(nm, r). get0 (relationships self) nm \<le> nemesis_targeting_threshold cfg)
              (gs_racers gs)
      in if strong_negative_targets \<noteq> [] then
           (case min_by (lookup (relationships self)) (map fst strong_negative_targets) of
              Inl e \<Rightarrow> Inl e
            | Inr most_hated_name \<Rightarrow>
                (case lookup (gs_racers gs) most_hated_name of
                   Inl e \<Rightarrow> Inl e
                 | Inr r \<Rightarrow> Inr (Some r)))
         else Inr None)"

text \<open>\<^verbatim>\<open>nemesis_target and nemesis_target in rs\<close>.\<close>

definition nemesis_in :: "racer option \<Rightarrow> racer list \<Rightarrow> bool" where
  "nemesis_in nt rs = (case nt of None \<Rightarrow> False | Some r \<Rightarrow> r \<in> set rs)"

text \<open>The result \<^verbatim>\<open>"use_item", target.name\<close> if a target was chosen, else the default.\<close>

definition use_on :: "racer option \<Rightarrow> action option \<times> string option" where
  "use_on tgt = (case tgt of Some t \<Rightarrow> (Some Use_item, Some (name t)) | None \<Rightarrow> (Some Drive, None))"

definition decide_action :: "config \<Rightarrow> draws \<Rightarrow> game_state \<Rightarrow> racer \<Rightarrow> error + (action option \<times> string option)" where
  "decide_action cfg rnd gs self =
     (if is_player self then Inr (None, None)
      else if current_item self = None then Inr (Some Drive, None)
      else
     (case index_of (name self, position self) (positions gs) of None \<Rightarrow> Inl ValueError
      | Some my_pos_index \<Rightarrow>
     (case comprehension_r (\<lambda>r_pos. r_pos > position self) (drop (my_pos_index + 1) (positions gs)) of
        Inl e \<Rightarrow> Inl e
      | Inr racers_ahead \<Rightarrow>
     (case comprehension_r (\<lambda>r_pos. r_pos < position self) (take my_pos_index (positions gs)) of
        Inl e \<Rightarrow> Inl e
      | Inr racers_behind \<Rightarrow>
     (case nemesis_target cfg gs self of Inl e \<Rightarrow> Inl e
      | Inr nemesis \<Rightarrow>
     (case current_item self of
        Some Boost \<Rightarrow>
          if boost_timer self \<le> 0 then Inr (Some Use_item, None) else Inr (Some Drive, None)
      | Some Green_Shell \<Rightarrow>
          if nemesis_in nemesis racers_ahead then Inr (use_on nemesis)
          else if racers_ahead \<noteq> []
          then Inr (use_on (Some (racers_ahead ! (pick rnd mod length racers_ahead))))
          else Inr (Some Drive, None)
      | Some Red_Shell \<Rightarrow>
          if nemesis_in nemesis racers_ahead then Inr (use_on nemesis)
          else if racers_ahead \<noteq> []
          then (case min_by (\<lambda>r. Inr (position r)) racers_ahead of
                  Inl e \<Rightarrow> Inl e | Inr t \<Rightarrow> Inr (use_on (Some t)))
          else Inr (Some Drive, None)
      | Some Banana \<Rightarrow>
          (let racers_close_behind = filter (\<lambda>r. position self - position r < 50) racers_behind
           in if nemesis_in nemesis racers_close_behind then Inr (Some Use_item, None)
              else if racers_close_behind \<noteq> [] \<and> u_close rnd < 7 / 10 then Inr (Some Use_item, None)
              else if Aggressive \<in> traits self \<and> u_aggressive rnd < 3 / 10 then Inr (Some Use_item, None)
              else Inr (Some Drive, None))
      | None \<Rightarrow> Inr (Some Drive, None)))))))"

text \<open>Lines 237 to 248 of \<^verbatim>\<open>get_item\<close>: the local \<^verbatim>\<open>boost_chance\<close> at the sampling.\<close>

definition leader_pos :: "game_state \<Rightarrow> racer \<Rightarrow> rat" where
  "leader_pos gs self = (if positions gs \<noteq> [] then snd (last (positions gs)) else position self)"

definition boost_chance :: "config \<Rightarrow> game_state \<Rightarrow> racer \<Rightarrow> rat" where
  "boost_chance cfg gs self =
     (if leader_pos gs self - position self > of_int (catch_up_assist_threshold cfg)
      then item_chance_boost cfg * catch_up_item_boost_mult cfg
      else item_chance_boost cfg)"

definition get_item :: "config \<Rightarrow> draws \<Rightarrow> game_state \<Rightarrow> racer \<Rightarrow> racer" where
  "get_item cfg rnd gs self =
     (let shell_chance = item_chance_green_shell cfg;
          red_shell_chance = item_chance_red_shell cfg;
          rand_val = u_item rnd
      in self\<lparr> current_item := Some
           (if rand_val < boost_chance cfg gs self then Boost
            else if rand_val < boost_chance cfg gs self + shell_chance then Green_Shell
            else if rand_val < boost_chance cfg gs self + shell_chance + red_shell_chance then Red_Shell
            else Banana) \<rparr>)"

definition update_step :: "config \<Rightarrow> draws \<Rightarrow> game_state \<Rightarrow> racer \<Rightarrow> error + racer" where
  "update_step cfg rnd gs self =
     (case
        (if hit_timer self > 0 then
           (let s1 = self\<lparr> hit_timer := hit_timer self - 1 \<rparr>
            in case last_hit_by_item s1 of
                 None \<Rightarrow> Inl AttributeError
               | Some it \<Rightarrow>
                   (let penalty =
                          (if it = Some Green_Shell \<or> it = Some Red_Shell
                           then of_int (shell_hit_speed_penalty cfg)
                           else if it = Some Banana then of_int (banana_hit_speed_penalty cfg)
                           else 0);
                        penalty = (if Shell_Shocked \<in> traits s1 then penalty * (3 / 2) else penalty)
                    in Inr (base_speed self + penalty,
                            if hit_timer s1 = 0
                            then s1\<lparr> last_hit_by := None, last_hit_by_item := Some None \<rparr>
                            else s1)))
         else if boost_timer self > 0 then
           Inr (base_speed self + of_int (boost_speed_bonus cfg),
                self\<lparr> boost_timer := boost_timer self - 1 \<rparr>)
         else Inr (base_speed self, self))
      of Inl e \<Rightarrow> Inl e
      | Inr (current_speed, s2) \<Rightarrow>
          (let s3 = s2\<lparr> position := position s2 + max 1 current_speed \<rparr>
           in if position s3 \<ge> next_item_box_pos s3 then
                Inr ((if current_item s3 = None then get_item cfg rnd gs s3 else s3)
                       \<lparr> next_item_box_pos := next_item_box_pos s3 + of_int (item_box_spacing cfg) \<rparr>)
              else Inr s3))"

text \<open>\<^verbatim>\<open>game_state['racers'].get(target_name)\<close>, where the name may be \<^verbatim>\<open>None\<close>.\<close>

definition racers_get :: "game_state \<Rightarrow> string option \<Rightarrow> racer option" where
  "racers_get gs target_name = (case target_name of None \<Rightarrow> None | Some t \<Rightarrow> map_of (gs_racers gs) t)"

text \<open>
  A shell that finds its target: the event is appended to the pending events and the
  attacker's count for the target goes up (lines 282 to 287 and 293 to 297).
\<close>

definition emit_hit :: "item \<Rightarrow> racer \<Rightarrow> racer \<Rightarrow> game_state \<Rightarrow> racer \<times> game_state" where
  "emit_hit item_used target_racer self gs =
     (self\<lparr> hit_others_count :=
         AList.update (name target_racer) (get0 (hit_others_count self) (name target_racer) + 1)
           (hit_others_count self) \<rparr>,
      gs\<lparr> pending_events := pending_events gs @
         [\<lparr> attacker = name self, target = name target_racer, ev_item = item_used \<rparr>] \<rparr>)"

text \<open>
  \<^verbatim>\<open>use_item\<close> changes the racer and appends to the lists of the game state; the
  result is the returned flag, the racer and the game state afterwards. The racer
  \<open>self\<close> is passed beside the game state, whose dictionary holds it as it was before
  the call; where the target is the racer itself, only its name and position are read,
  and the call changes neither.
\<close>

definition use_item :: "config \<Rightarrow> string option \<Rightarrow> game_state \<Rightarrow> racer \<Rightarrow> error + (bool \<times> racer \<times> game_state)" where
  "use_item cfg target_name gs self =
     (case current_item self of
        None \<Rightarrow> Inr (False, self, gs)
      | Some item_used \<Rightarrow>
     (case lookup (item_uses self) item_used of Inl e \<Rightarrow> Inl e
      | Inr n \<Rightarrow>
     (let s1 = self\<lparr> current_item := None,
                     item_uses := AList.update item_used (n + 1) (item_uses self) \<rparr>
      in case item_used of
           Boost \<Rightarrow> Inr (True, s1\<lparr> boost_timer := boost_duration cfg \<rparr>, gs)
         | Green_Shell \<Rightarrow>
             (case racers_get gs target_name of
                Some target_racer \<Rightarrow> Inr (True, emit_hit item_used target_racer s1 gs)
              | None \<Rightarrow> Inr (True, s1, gs))
         | Red_Shell \<Rightarrow>
             (case racers_get gs target_name of
                Some target_racer \<Rightarrow>
                  if position target_racer > position s1
                  then Inr (True, emit_hit item_used target_racer s1 gs)
                  else Inr (True, s1, gs)
              | None \<Rightarrow> Inr (True, s1, gs))
         | Banana \<Rightarrow>
             Inr (True, s1,
                  gs\<lparr> gs_obstacles := gs_obstacles gs @
                    [\<lparr> obs_type = Banana, obs_position = position s1 - base_speed s1 / 2,
                       owner = name s1 \<rparr>] \<rparr>))))"

text \<open>\<^verbatim>\<open>if attacker_name:\<close> holds for a name that is neither \<^verbatim>\<open>None\<close> nor empty.\<close>

definition truthy :: "string option \<Rightarrow> bool" where
  "truthy a = (case a of None \<Rightarrow> False | Some n \<Rightarrow> n \<noteq> [])"

text \<open>
  \<^verbatim>\<open>apply_hit\<close>. Its third parameter, the game state, is only read by a lookup whose
  result is dropped (lines 336 to 340), and is left out.
\<close>

definition apply_hit :: "config \<Rightarrow> string option \<Rightarrow> item \<Rightarrow> racer \<Rightarrow> error + racer" where
  "apply_hit cfg attacker_name item_type self =
     (if hit_timer self > 0 then Inr self
      else
     (case lookup (times_hit_by self) item_type of Inl e \<Rightarrow> Inl e
      | Inr n \<Rightarrow>
     (let s1 = self\<lparr> boost_timer := 0,
                     last_hit_by := attacker_name,
                     last_hit_by_item := Some (Some item_type),
                     times_hit_by := AList.update item_type (n + 1) (times_hit_by self) \<rparr>;
          s2 = (case attacker_name of
                  None \<Rightarrow> s1
                | Some a \<Rightarrow>
                    if truthy attacker_name
                    then s1\<lparr> hit_by_count := AList.update a (get0 (hit_by_count s1) a + 1) (hit_by_count s1) \<rparr>
                    else s1);
          s3 = (if item_type = Green_Shell \<or> item_type = Red_Shell
                then s2\<lparr> hit_timer := shell_hit_duration cfg \<rparr>
                else if item_type = Banana then s2\<lparr> hit_timer := banana_hit_duration cfg \<rparr>
                else s2);
          s4 = (case attacker_name of
                  None \<Rightarrow> s3
                | Some a \<Rightarrow>
                    if truthy attacker_name
                    then update_relationship a (nemesis_hit_relationship_penalty cfg) s3
                    else s3)
      in check_trait_conditions cfg s4)))"

subsection \<open>Game\<close>

text \<open>The decimal numeral of the f-string \<^verbatim>\<open>f"CPU_{i+1}"\<close>.\<close>

fun str_nat :: "nat \<Rightarrow> string" where
  "str_nat n =
     (if n < 10 then [''0123456789'' ! n]
      else str_nat (n div 10) @ [''0123456789'' ! (n mod 10)])"

declare str_nat.simps [simp del]

text \<open>
  \<^verbatim>\<open>Game.__init__\<close>; \<open>uniform nm\<close> is the speed that \<^verbatim>\<open>random.uniform\<close> returns in
  the constructor of the racer \<open>nm\<close>. Both branches on \<^verbatim>\<open>player_controlled\<close>
  create the racer \<^verbatim>\<open>Player\<close>, with the flag as its \<^verbatim>\<open>is_player\<close>.
\<close>

definition Game_init :: "config \<Rightarrow> (string \<Rightarrow> rat) \<Rightarrow> game" where
  "Game_init cfg uniform =
     (let racer_names = map (\<lambda>i. ''CPU_'' @ str_nat (i + 1)) [0..<nat (num_racers cfg - 1)];
          rs0 = [(''Player'', Racer_init cfg (uniform ''Player'') ''Player'' (player_controlled cfg))];
          rs1 = fold (\<lambda>nm rs. AList.update nm (Racer_init cfg (uniform nm) nm False) rs) racer_names rs0;
          all_racer_list = map (\<lambda>(nm, r). name r) rs1
      in \<lparr> racers = map (\<lambda>(nm, r). (nm, initialize_relationships all_racer_list r)) rs1,
           player_name = ''Player'',
           winner = None,
           step_count = 0,
           game_over = False,
           last_positions = [],
           obstacles = [] \<rparr>)"

text \<open>
  \<^verbatim>\<open>sorted(..., key=lambda r: r.position, reverse=True)\<close>: descending, and stable
  (equal keys keep their order), like \<^const>\<open>sort_key\<close> on the negated key.
\<close>

definition sorted_racers :: "(string \<times> racer) list \<Rightarrow> racer list" where
  "sorted_racers rs = sort_key (\<lambda>r. - position r) (map snd rs)"

definition get_state :: "game \<Rightarrow> game_state" where
  "get_state g =
     \<lparr> gs_racers = racers g,
       positions = map (\<lambda>r. (name r, position r)) (sorted_racers (racers g)),
       gs_obstacles = obstacles g,
       pending_events = [] \<rparr>"

text \<open>
  The loops of \<^verbatim>\<open>run_step\<close>, one function for each. A loop over
  \<^verbatim>\<open>self.racers.items()\<close> recurses over the pairs of the dictionary; where the body
  changes the racer, the new racer is written back under its name.

  Step 1 (lines 402 to 410): the actions.
\<close>

fun decide_all :: "config \<Rightarrow> (string \<Rightarrow> draws) \<Rightarrow> action option \<Rightarrow> string option \<Rightarrow> game_state \<Rightarrow>
    (string \<times> racer) list \<Rightarrow> (string \<times> action option \<times> string option) list \<Rightarrow>
    error + (string \<times> action option \<times> string option) list" where
  "decide_all cfg rnd player_action player_target gs [] actions = Inr actions"
| "decide_all cfg rnd player_action player_target gs ((nm, r) # rest) actions =
     (case (if is_player r
            then (case player_action of
                    Some a \<Rightarrow> Inr (Some a, player_target)
                  | None \<Rightarrow> Inr (Some Drive, None))
            else decide_action cfg (rnd nm) gs r) of
        Inl e \<Rightarrow> Inl e
      | Inr a \<Rightarrow> decide_all cfg rnd player_action player_target gs rest (AList.update nm a actions))"

text \<open>
  Step 2 (lines 418 to 424). A racer is changed by its own turn only, so the racer of
  the pair is the racer as its turn starts; the racers before it in the dictionary have
  moved already, which \<^verbatim>\<open>use_item\<close> sees through \<open>gs_racers\<close>.
\<close>

fun execute_actions :: "config \<Rightarrow> (string \<Rightarrow> draws) \<Rightarrow> (string \<times> action option \<times> string option) list \<Rightarrow>
    (string \<times> racer) list \<Rightarrow> game_state \<Rightarrow> error + game_state" where
  "execute_actions cfg rnd actions [] gs = Inr gs"
| "execute_actions cfg rnd actions ((nm, r) # rest) gs =
     (case lookup actions nm of Inl e \<Rightarrow> Inl e
      | Inr (act, tgt) \<Rightarrow>
     (case (if act = Some Use_item then use_item cfg tgt gs r else Inr (False, r, gs)) of
        Inl e \<Rightarrow> Inl e
      | Inr (used, r1, gs1) \<Rightarrow>
     (case update_step cfg (rnd nm) gs1 r1 of Inl e \<Rightarrow> Inl e
      | Inr r2 \<Rightarrow>
          execute_actions cfg rnd actions rest
            (gs1\<lparr> gs_racers := AList.update nm r2 (gs_racers gs1) \<rparr>))))"

text \<open>Step 3 (lines 428 to 432): the pending hits.\<close>

fun process_events :: "config \<Rightarrow> event list \<Rightarrow> (string \<times> racer) list \<Rightarrow> error + (string \<times> racer) list" where
  "process_events cfg [] rs = Inr rs"
| "process_events cfg (ev # evs) rs =
     (case map_of rs (target ev) of
        None \<Rightarrow> process_events cfg evs rs
      | Some target_racer \<Rightarrow>
          (case apply_hit cfg (Some (attacker ev)) (ev_item ev) target_racer of
             Inl e \<Rightarrow> Inl e
           | Inr r' \<Rightarrow> process_events cfg evs (AList.update (target ev) r' rs)))"

text \<open>
  Step 4 (lines 435 to 454). The inner loop: the first racer that crossed the obstacle
  and is not stunned is hit, and the loop breaks; the flag is \<^verbatim>\<open>hit_obstacle\<close>.
\<close>

fun hit_first :: "config \<Rightarrow> (string \<times> rat) list \<Rightarrow> obstacle \<Rightarrow> (string \<times> racer) list \<Rightarrow>
    error + (bool \<times> (string \<times> racer) list)" where
  "hit_first cfg lp obs [] = Inr (False, [])"
| "hit_first cfg lp obs ((nm, r) # rest) =
     (let last_pos = (case map_of lp (name r) of None \<Rightarrow> position r | Some p \<Rightarrow> p);
          current_pos = position r
      in if min last_pos current_pos < obs_position obs
            \<and> obs_position obs \<le> max last_pos current_pos \<and> hit_timer r \<le> 0
         then (case apply_hit cfg (Some (owner obs)) (obs_type obs) r of
                 Inl e \<Rightarrow> Inl e
               | Inr r' \<Rightarrow> Inr (True, (nm, r') # rest))
         else (case hit_first cfg lp obs rest of
                 Inl e \<Rightarrow> Inl e
               | Inr (hit, rest') \<Rightarrow> Inr (hit, (nm, r) # rest')))"

fun check_obstacles :: "config \<Rightarrow> (string \<times> rat) list \<Rightarrow> obstacle list \<Rightarrow> (string \<times> racer) list \<Rightarrow>
    error + (obstacle list \<times> (string \<times> racer) list)" where
  "check_obstacles cfg lp [] rs = Inr ([], rs)"
| "check_obstacles cfg lp (obs # rest) rs =
     (case hit_first cfg lp obs rs of Inl e \<Rightarrow> Inl e
      | Inr (hit_obstacle, rs1) \<Rightarrow>
     (case check_obstacles cfg lp rest rs1 of Inl e \<Rightarrow> Inl e
      | Inr (new_obstacles, rs2) \<Rightarrow>
          Inr (if \<not> hit_obstacle then obs # new_obstacles else new_obstacles, rs2)))"

text \<open>
  Step 5 (lines 458 to 477). \<open>overtaken i nm last_names\<close> are the names that the racer
  \<open>nm\<close>, now of rank \<open>i\<close>, overtook: the indices \<^verbatim>\<open>range(i + 1, last_rank_index + 1)\<close>
  of the ranking before the step. A name missing from that ranking makes
  \<^verbatim>\<open>index\<close> raise \<^verbatim>\<open>ValueError\<close>, which the loop body catches.
\<close>

definition overtaken :: "nat \<Rightarrow> string \<Rightarrow> string list \<Rightarrow> string list" where
  "overtaken i nm last_names =
     (case index_of nm last_names of
        None \<Rightarrow> []
      | Some last_rank_index \<Rightarrow>
          if i < last_rank_index
          then map (\<lambda>j. last_names ! j)
                 (filter (\<lambda>j. j < length last_names) [i + 1..<last_rank_index + 1])
          else [])"

definition check_overtakes :: "config \<Rightarrow> (string \<times> rat) list \<Rightarrow> (string \<times> racer) list \<Rightarrow> (string \<times> racer) list" where
  "check_overtakes cfg lp rs =
     (let current_sorted_racers = map name (sorted_racers rs);
          last_sorted_racers_names = map fst (sort_key (\<lambda>item. - snd item) lp)
      in fold (\<lambda>(i, current_racer) rs'.
                 fold (\<lambda>overtaken_racer_name.
                         AList.map_entry overtaken_racer_name
                           (update_relationship current_racer (nemesis_overtake_relationship_penalty cfg)))
                   (overtaken i current_racer last_sorted_racers_names) rs')
           (List.enumerate 0 current_sorted_racers) rs)"

text \<open>
  Step 6 (lines 481 to 496): the first racer of the dictionary at or beyond the track
  length wins; every other racer then updates its relationship towards each racer that
  is before it in the final order.
\<close>

definition finish_update :: "config \<Rightarrow> string \<Rightarrow> (string \<times> racer) list \<Rightarrow> (string \<times> racer) list" where
  "finish_update cfg winner_name rs =
     (let sorted_names = map name (sorted_racers rs)
      in fold (\<lambda>(i, r_name) rs'.
                 if r_name \<noteq> winner_name
                 then fold (\<lambda>j. AList.map_entry r_name
                              (update_relationship (sorted_names ! j) (nemesis_finish_ahead_penalty cfg)))
                        [0..<i] rs'
                 else rs')
           (List.enumerate 0 sorted_names) rs)"

definition check_win :: "config \<Rightarrow> game \<Rightarrow> game" where
  "check_win cfg g =
     (case find (\<lambda>(nm, r). position r \<ge> of_int (track_length cfg)) (racers g) of
        None \<Rightarrow> g
      | Some (nm, r) \<Rightarrow>
          g\<lparr> winner := Some nm, game_over := True, racers := finish_update cfg nm (racers g) \<rparr>)"

text \<open>Step 7 (lines 500 and 501).\<close>

fun check_all_traits :: "config \<Rightarrow> (string \<times> racer) list \<Rightarrow> error + (string \<times> racer) list" where
  "check_all_traits cfg [] = Inr []"
| "check_all_traits cfg ((nm, r) # rest) =
     (case check_trait_conditions cfg r of Inl e \<Rightarrow> Inl e
      | Inr r' \<Rightarrow>
     (case check_all_traits cfg rest of Inl e \<Rightarrow> Inl e
      | Inr rest' \<Rightarrow> Inr ((nm, r') # rest')))"

text \<open>
  \<^verbatim>\<open>run_step\<close>: the returned flag and the game afterwards. The list
  \<^verbatim>\<open>game_state['obstacles']\<close> is the game's own list, so the bananas dropped in step 2
  are among the obstacles of step 4.
\<close>

definition run_step :: "config \<Rightarrow> (string \<Rightarrow> draws) \<Rightarrow> action option \<Rightarrow> string option \<Rightarrow> game \<Rightarrow>
    error + (bool \<times> game)" where
  "run_step cfg rnd player_action player_target g =
     (if game_over g then Inr (True, g)
      else
     (let g1 = g\<lparr> step_count := step_count g + 1 \<rparr>;
          current_game_state = get_state g1
      in
     (case decide_all cfg rnd player_action player_target current_game_state (racers g1) [] of
        Inl e \<Rightarrow> Inl e
      | Inr actions \<Rightarrow>
     (let lp = map (\<lambda>(nm, r). (nm, position r)) (racers g1)
      in
     (case execute_actions cfg rnd actions (racers g1) current_game_state of
        Inl e \<Rightarrow> Inl e
      | Inr gs2 \<Rightarrow>
     (case process_events cfg (pending_events gs2) (gs_racers gs2) of
        Inl e \<Rightarrow> Inl e
      | Inr rs3 \<Rightarrow>
     (case check_obstacles cfg lp (gs_obstacles gs2) rs3 of
        Inl e \<Rightarrow> Inl e
      | Inr (new_obstacles, rs4) \<Rightarrow>
     (let g6 = check_win cfg
                 (g1\<lparr> last_positions := lp, obstacles := new_obstacles,
                      racers := check_overtakes cfg lp rs4 \<rparr>)
      in
     (case check_all_traits cfg (racers g6) of
        Inl e \<Rightarrow> Inl e
      | Inr rs7 \<Rightarrow> Inr (game_over g6, g6\<lparr> racers := rs7 \<rparr>))))))))))"

subsection \<open>Queries and debug commands\<close>

text \<open>
  \<^verbatim>\<open>get_racer_details\<close> builds a text from the fields it reads, in this order; the
  record \<open>details\<close> holds what is read, not the formatted text. For an unknown name the
  function returns a message.
\<close>

record details =
  d_position :: rat
  d_base_speed :: rat
  d_current_item :: "item option"
  d_boost_timer :: int
  d_hit_timer :: int
  d_last_hit_by :: "string option"
  d_last_hit_by_item :: "item option"
  d_traits :: "trait set"
  d_item_uses :: "(item \<times> int) list"
  d_times_hit_by :: "(item \<times> int) list"
  d_relationships :: "(string \<times> int) list"
  d_hit_by_count :: "(string \<times> int) list"
  d_hit_others_count :: "(string \<times> int) list"

datatype report = Racer_not_found string | Details details

definition get_racer_details :: "string \<Rightarrow> game \<Rightarrow> error + report" where
  "get_racer_details nm g =
     (case map_of (racers g) nm of
        None \<Rightarrow> Inr (Racer_not_found nm)
      | Some r \<Rightarrow>
          (case last_hit_by_item r of
             None \<Rightarrow> Inl AttributeError
           | Some it \<Rightarrow>
               Inr (Details \<lparr>
                 d_position = position r,
                 d_base_speed = base_speed r,
                 d_current_item = current_item r,
                 d_boost_timer = boost_timer r,
                 d_hit_timer = hit_timer r,
                 d_last_hit_by = last_hit_by r,
                 d_last_hit_by_item = it,
                 d_traits = traits r,
                 d_item_uses = item_uses r,
                 d_times_hit_by = times_hit_by r,
                 d_relationships = sort_key snd (relationships r),
                 d_hit_by_count = filter (\<lambda>(a, c). c > 0) (hit_by_count r),
                 d_hit_others_count = filter (\<lambda>(t, c). c > 0) (hit_others_count r) \<rparr>)))"

text \<open>
  The command \<^verbatim>\<open>rel r1 r2 val\<close> (lines 737 to 744) sets a score by an update with
  the difference to the current score, then reads \<^verbatim>\<open>r1.relationships[r2_name]\<close>.
\<close>

definition set_relationship :: "string \<Rightarrow> int \<Rightarrow> racer \<Rightarrow> racer" where
  "set_relationship r2_name v r1 =
     update_relationship r2_name (v - get0 (relationships r1) r2_name) r1"

definition rel_command :: "string \<Rightarrow> string \<Rightarrow> int \<Rightarrow> game \<Rightarrow> error + game" where
  "rel_command r1_name r2_name v g =
     (case (map_of (racers g) r1_name, map_of (racers g) r2_name) of
        (Some r1, Some r2) \<Rightarrow>
          if r1_name \<noteq> r2_name
          then (let r1' = set_relationship r2_name v r1
                in case lookup (relationships r1') r2_name of
                     Inl e \<Rightarrow> Inl e
                   | Inr shown \<Rightarrow> Inr (g\<lparr> racers := AList.update r1_name r1' (racers g) \<rparr>))
          else Inr g
      | _ \<Rightarrow> Inr g)"

text \<open>The command \<^verbatim>\<open>give racer item\<close> (lines 693 and 694).\<close>

definition give_command :: "string \<Rightarrow> item \<Rightarrow> game \<Rightarrow> game" where
  "give_command racer_name item_to_give g =
     g\<lparr> racers := AList.map_entry racer_name (\<lambda>r. r\<lparr> current_item := Some item_to_give \<rparr>) (racers g) \<rparr>"

subsection \<open>Example states\<close>

text \<open>
  Two computer racers \<^verbatim>\<open>A\<close> and \<open>B\<close> as the constructor and
  \<^verbatim>\<open>initialize_relationships\<close> make them, \<open>B\<close> five units ahead of \<open>A\<close>, and the
  state of a game that holds them.
\<close>

definition racer_A :: racer where
  "racer_A = initialize_relationships [''A'', ''B''] (Racer_init CONFIG 10 ''A'' False)"

definition racer_B :: racer where
  "racer_B =
     (initialize_relationships [''A'', ''B''] (Racer_init CONFIG 10 ''B'' False))\<lparr> position := 5 \<rparr>"

definition state_AB :: game_state where
  "state_AB =
     \<lparr> gs_racers = [(''A'', racer_A), (''B'', racer_B)],
       positions = [(''B'', 5), (''A'', 0)],
       gs_obstacles = [],
       pending_events = [] \<rparr>"

text \<open>A game of two racers, the player at speed \<open>12\<close> and \<^verbatim>\<open>CPU_1\<close> at speed \<open>8\<close>.\<close>

definition duel_cfg :: config where
  "duel_cfg = CONFIG\<lparr> num_racers := 2 \<rparr>"

definition duel_speed :: "string \<Rightarrow> rat" where
  "duel_speed nm = (if nm = ''Player'' then 12 else 8)"

definition duel_player :: racer where
  "duel_player = initialize_relationships [''Player'', ''CPU_1''] (Racer_init duel_cfg 12 ''Player'' True)"

definition duel_cpu :: racer where
  "duel_cpu = initialize_relationships [''Player'', ''CPU_1''] (Racer_init duel_cfg 8 ''CPU_1'' False)"

definition duel :: game where
  "duel = Game_init duel_cfg duel_speed"

subsection \<open>Reachable games\<close>

text \<open>
  The games that a run of the program can hold: the game that the constructor builds,
  and from there the steps that return and the debug commands \<^verbatim>\<open>rel\<close> and
  \<^verbatim>\<open>give\<close>. The configuration is a parameter of every step, since the command
  \<^verbatim>\<open>config\<close> may change it between two steps.
\<close>

inductive reachable :: "game \<Rightarrow> bool" where
  init: "reachable (Game_init cfg uniform)"
| step: "reachable g \<Longrightarrow> run_step cfg rnd player_action player_target g = Inr (over, g') \<Longrightarrow> reachable g'"
| rel: "reachable g \<Longrightarrow> rel_command r1_name r2_name v g = Inr g' \<Longrightarrow> reachable g'"
| give: "reachable g \<Longrightarrow> reachable (give_command racer_name item_to_give g)"

text \<open>Every score of the relationship map is in the range from \<open>-10\<close> to \<open>10\<close>.\<close>

definition rel_bounded :: "racer \<Rightarrow> bool" where
  "rel_bounded r = (\<forall>s \<in> snd ` set (relationships r). - 10 \<le> s \<and> s \<le> 10)"

text \<open>At most one of the two status timers is positive.\<close>

definition timers_exclusive :: "racer \<Rightarrow> bool" where
  "timers_exclusive r = (\<not> (boost_timer r > 0 \<and> hit_timer r > 0))"

(*PROPERTIES*)
section \<open>Properties\<close>

subsection \<open>Dictionaries\<close>

lemma lookup_update: "lookup (AList.update k v d) k = Inr v"
  by (simp add: lookup_def update_conv')

lemma racer_A_fields:
  "name racer_A = ''A''" "position racer_A = 0" "base_speed racer_A = 10"
  "current_item racer_A = None" "hit_timer racer_A = 0" "boost_timer racer_A = 0"
  "item_uses racer_A = [(Boost, 0), (Green_Shell, 0), (Red_Shell, 0), (Banana, 0)]"
  "relationships racer_A = [(''B'', 0)]" "hit_others_count racer_A = [(''B'', 0)]"
  by (simp_all add: racer_A_def Racer_init_def)

lemma racer_B_fields:
  "name racer_B = ''B''" "position racer_B = 5"
  by (simp_all add: racer_B_def Racer_init_def)

lemma set_update_subset: "set (AList.update k v al) \<subseteq> insert (k, v) (set al)"
  by (induction al) auto

lemma snd_set_update: "x \<in> snd ` set (AList.update k v al) \<Longrightarrow> x = v \<or> x \<in> snd ` set al"
  using set_update_subset [of k v al] by auto

lemma snd_set_map_entry:
  "x \<in> snd ` set (AList.map_entry k f al) \<Longrightarrow> x \<in> snd ` set al \<or> (\<exists>y \<in> snd ` set al. x = f y)"
  by (induction al) (auto split: if_splits)

lemma all_update:
  "P v \<Longrightarrow> \<forall>r \<in> snd ` set al. P r \<Longrightarrow> \<forall>r \<in> snd ` set (AList.update k v al). P r"
  by (induction al) auto

lemma all_map_entry:
  "(\<And>r. P r \<Longrightarrow> P (f r)) \<Longrightarrow> \<forall>r \<in> snd ` set al. P r \<Longrightarrow> \<forall>r \<in> snd ` set (AList.map_entry k f al). P r"
  by (induction al) auto

lemma map_of_snd_set: "map_of al k = Some v \<Longrightarrow> v \<in> snd ` set al"
  by (metis map_of_SomeD image_eqI snd_conv)

lemma execute_actions_preserves:
  assumes use: "\<And>tgt gs r b r' gs'. P r \<Longrightarrow> use_item cfg tgt gs r = Inr (b, r', gs') \<Longrightarrow> P r'"
    and upd: "\<And>d gs r r'. P r \<Longrightarrow> update_step cfg d gs r = Inr r' \<Longrightarrow> P r'"
  shows "execute_actions cfg rnd actions todo gs = Inr gs' \<Longrightarrow>
     \<forall>r \<in> snd ` set todo. P r \<Longrightarrow> \<forall>r \<in> snd ` set (gs_racers gs). P r \<Longrightarrow>
     \<forall>r \<in> snd ` set (gs_racers gs'). P r"
proof (induction todo arbitrary: gs)
  case Nil
  then show ?case by simp
next
  case (Cons p todo)
  obtain nm r where p: "p = (nm, r)" by (cases p)
  from Cons.prems(1) p obtain act tgt used r1 gs1 r2 where
    a: "lookup actions nm = Inr (act, tgt)"
    and b: "(if act = Some Use_item then use_item cfg tgt gs r else Inr (False, r, gs)) = Inr (used, r1, gs1)"
    and c: "update_step cfg (rnd nm) gs1 r1 = Inr r2"
    and d: "execute_actions cfg rnd actions todo (gs1\<lparr> gs_racers := AList.update nm r2 (gs_racers gs1) \<rparr>) = Inr gs'"
    by (auto split: sum.splits prod.splits)
  have Pr: "P r" using Cons.prems(2) p by simp
  have racers1: "gs_racers gs1 = gs_racers gs"
    using b by (auto simp: use_item_def emit_hit_def Let_def split: if_splits option.splits sum.splits item.splits)
  have "P r1" using b Pr use by (auto split: if_splits)
  then have "P r2" using c upd by blast
  have "\<forall>r \<in> snd ` set (gs_racers (gs1\<lparr> gs_racers := AList.update nm r2 (gs_racers gs1) \<rparr>)). P r"
    using all_update [where P = P and v = r2 and al = "gs_racers gs" and k = nm] \<open>P r2\<close> Cons.prems(3) racers1 by simp
  moreover have "\<forall>r \<in> snd ` set todo. P r" using Cons.prems(2) by simp
  ultimately show ?case using Cons.IH [OF d] by blast
qed

lemma process_events_preserves:
  assumes hit: "\<And>a it r r'. P r \<Longrightarrow> apply_hit cfg a it r = Inr r' \<Longrightarrow> P r'"
  shows "process_events cfg evs rs = Inr rs' \<Longrightarrow> \<forall>r \<in> snd ` set rs. P r \<Longrightarrow> \<forall>r \<in> snd ` set rs'. P r"
proof (induction evs arbitrary: rs)
  case Nil
  then show ?case by simp
next
  case (Cons ev evs)
  show ?case
  proof (cases "map_of rs (target ev)")
    case None
    with Cons show ?thesis by simp
  next
    case (Some tr)
    with Cons.prems(1) obtain r' where
      a: "apply_hit cfg (Some (attacker ev)) (ev_item ev) tr = Inr r'"
      and b: "process_events cfg evs (AList.update (target ev) r' rs) = Inr rs'"
      by (auto split: sum.splits)
    have "P tr" using Some Cons.prems(2) map_of_snd_set by fastforce
    then have "P r'" using a hit by blast
    then have "\<forall>r \<in> snd ` set (AList.update (target ev) r' rs). P r"
      using all_update [where P = P and v = r' and al = rs and k = "target ev"] Cons.prems(2) by blast
    then show ?thesis using Cons.IH [OF b] by blast
  qed
qed

lemma hit_first_preserves:
  assumes hit: "\<And>a it r r'. P r \<Longrightarrow> apply_hit cfg a it r = Inr r' \<Longrightarrow> P r'"
  shows "hit_first cfg lp obs rs = Inr (b, rs') \<Longrightarrow> \<forall>r \<in> snd ` set rs. P r \<Longrightarrow> \<forall>r \<in> snd ` set rs'. P r"
proof (induction rs arbitrary: b rs')
  case Nil
  then show ?case by simp
next
  case (Cons p rs)
  obtain nm r where p: "p = (nm, r)" by (cases p)
  define crossed where "crossed =
     (let last_pos = (case map_of lp (name r) of None \<Rightarrow> position r | Some p \<Rightarrow> p);
          current_pos = position r
      in min last_pos current_pos < obs_position obs
            \<and> obs_position obs \<le> max last_pos current_pos \<and> hit_timer r \<le> 0)"
  have eq: "hit_first cfg lp obs ((nm, r) # rs) =
     (if crossed
      then (case apply_hit cfg (Some (owner obs)) (obs_type obs) r of
              Inl e \<Rightarrow> Inl e | Inr r' \<Rightarrow> Inr (True, (nm, r') # rs))
      else (case hit_first cfg lp obs rs of
              Inl e \<Rightarrow> Inl e | Inr (hit, rest') \<Rightarrow> Inr (hit, (nm, r) # rest')))"
    by (simp add: crossed_def Let_def)
  have Pr: "P r" and Prs: "\<forall>r \<in> snd ` set rs. P r"
    using Cons.prems(2) p by simp_all
  show ?case
  proof (cases crossed)
    case True
    with Cons.prems(1) p eq obtain r' where
      a: "apply_hit cfg (Some (owner obs)) (obs_type obs) r = Inr r'" and b: "rs' = (nm, r') # rs"
      by (cases "apply_hit cfg (Some (owner obs)) (obs_type obs) r") auto
    have "P r'" by (rule hit [OF Pr a])
    with Prs b show ?thesis by simp
  next
    case False
    with Cons.prems(1) p eq obtain h rest' where
      a: "hit_first cfg lp obs rs = Inr (h, rest')" and b: "rs' = (nm, r) # rest'"
      by (cases "hit_first cfg lp obs rs") auto
    have "\<forall>r \<in> snd ` set rest'. P r" by (rule Cons.IH [OF a Prs])
    with Pr b show ?thesis by simp
  qed
qed

lemma check_obstacles_preserves:
  assumes hit: "\<And>a it r r'. P r \<Longrightarrow> apply_hit cfg a it r = Inr r' \<Longrightarrow> P r'"
  shows "check_obstacles cfg lp obss rs = Inr (new_obs, rs') \<Longrightarrow> \<forall>r \<in> snd ` set rs. P r \<Longrightarrow> \<forall>r \<in> snd ` set rs'. P r"
proof (induction obss arbitrary: rs new_obs rs')
  case Nil
  then show ?case by simp
next
  case (Cons obs obss)
  from Cons.prems(1) obtain h rs1 no rs2 where
    a: "hit_first cfg lp obs rs = Inr (h, rs1)"
    and b: "check_obstacles cfg lp obss rs1 = Inr (no, rs2)" and c: "rs' = rs2"
    by (auto split: sum.splits prod.splits)
  have "\<forall>r \<in> snd ` set rs1. P r"
    using hit_first_preserves [where P = P and cfg = cfg, OF _ a Cons.prems(2)] hit by blast
  then show ?case using Cons.IH [OF b] c by blast
qed

lemma fold_map_entry_names:
  assumes f: "\<And>r. P r \<Longrightarrow> P (f r)"
  shows "\<forall>r \<in> snd ` set rs. P r \<Longrightarrow> \<forall>r \<in> snd ` set (fold (\<lambda>k. AList.map_entry k f) ks rs). P r"
proof (induction ks arbitrary: rs)
  case Nil
  then show ?case by simp
next
  case (Cons k ks)
  have "\<forall>r \<in> snd ` set (AList.map_entry k f rs). P r"
    by (rule all_map_entry [where P = P]) (erule f, rule Cons.prems)
  from Cons.IH [OF this] show ?case by simp
qed

lemma fold_map_entry_updates:
  assumes f: "\<And>j r. P r \<Longrightarrow> P (f j r)"
  shows "\<forall>r \<in> snd ` set rs. P r \<Longrightarrow> \<forall>r \<in> snd ` set (fold (\<lambda>j. AList.map_entry k (f j)) js rs). P r"
proof (induction js arbitrary: rs)
  case Nil
  then show ?case by simp
next
  case (Cons j js)
  have "\<forall>r \<in> snd ` set (AList.map_entry k (f j) rs). P r"
    by (rule all_map_entry [where P = P]) (erule f, rule Cons.prems)
  from Cons.IH [OF this] show ?case by simp
qed

lemma check_overtakes_preserves:
  assumes rel: "\<And>n c r. P r \<Longrightarrow> P (update_relationship n c r)"
  shows "\<forall>r \<in> snd ` set rs. P r \<Longrightarrow> \<forall>r \<in> snd ` set (check_overtakes cfg lp rs). P r"
proof -
  have gen: "\<forall>r \<in> snd ` set rs. P r \<Longrightarrow>
      \<forall>r \<in> snd ` set (fold (\<lambda>(i, current_racer) rs'.
                 fold (\<lambda>overtaken_racer_name.
                         AList.map_entry overtaken_racer_name
                           (update_relationship current_racer (nemesis_overtake_relationship_penalty cfg)))
                   (overtaken i current_racer lastn) rs') xs rs). P r" for xs lastn rs
  proof (induction xs arbitrary: rs)
    case Nil
    then show ?case by simp
  next
    case (Cons x xs)
    obtain i c where x: "x = (i, c)" by (cases x)
    define rs1 where "rs1 = fold (\<lambda>overtaken_racer_name.
                         AList.map_entry overtaken_racer_name
                           (update_relationship c (nemesis_overtake_relationship_penalty cfg)))
                   (overtaken i c lastn) rs"
    have "\<forall>r \<in> snd ` set rs1. P r"
      unfolding rs1_def
      by (rule fold_map_entry_names [where P = P]) (erule rel, rule Cons.prems)
    from Cons.IH [OF this] show ?case by (simp add: x rs1_def)
  qed
  assume "\<forall>r \<in> snd ` set rs. P r"
  then show ?thesis unfolding check_overtakes_def Let_def by (rule gen)
qed

lemma finish_update_preserves:
  assumes rel: "\<And>n c r. P r \<Longrightarrow> P (update_relationship n c r)"
  shows "\<forall>r \<in> snd ` set rs. P r \<Longrightarrow> \<forall>r \<in> snd ` set (finish_update cfg w rs). P r"
proof -
  have gen: "\<forall>r \<in> snd ` set rs. P r \<Longrightarrow>
      \<forall>r \<in> snd ` set (fold (\<lambda>(i, r_name) rs'.
                 if r_name \<noteq> w
                 then fold (\<lambda>j. AList.map_entry r_name
                              (update_relationship (sn ! j) (nemesis_finish_ahead_penalty cfg)))
                        [0..<i] rs'
                 else rs') xs rs). P r" for xs sn rs
  proof (induction xs arbitrary: rs)
    case Nil
    then show ?case by simp
  next
    case (Cons x xs)
    obtain i c where x: "x = (i, c)" by (cases x)
    define rs1 where "rs1 = fold (\<lambda>j. AList.map_entry c
                              (update_relationship (sn ! j) (nemesis_finish_ahead_penalty cfg)))
                        [0..<i] rs"
    have "\<forall>r \<in> snd ` set rs1. P r"
      unfolding rs1_def
      by (rule fold_map_entry_updates [where P = P
            and f = "\<lambda>j. update_relationship (sn ! j) (nemesis_finish_ahead_penalty cfg)"])
         (erule rel, rule Cons.prems)
    then have "\<forall>r \<in> snd ` set (if c \<noteq> w then rs1 else rs). P r"
      using Cons.prems by simp
    from Cons.IH [OF this] show ?case by (simp add: x rs1_def)
  qed
  assume "\<forall>r \<in> snd ` set rs. P r"
  then show ?thesis unfolding finish_update_def Let_def by (rule gen)
qed

lemma check_win_preserves:
  assumes rel: "\<And>n c r. P r \<Longrightarrow> P (update_relationship n c r)"
  shows "\<forall>r \<in> snd ` set (racers g). P r \<Longrightarrow> \<forall>r \<in> snd ` set (racers (check_win cfg g)). P r"
proof (cases "find (\<lambda>(nm, r). position r \<ge> of_int (track_length cfg)) (racers g)")
  case None
  assume "\<forall>r \<in> snd ` set (racers g). P r"
  with None show ?thesis by (simp add: check_win_def)
next
  case (Some p)
  obtain nm r where p: "p = (nm, r)" by (cases p)
  assume a: "\<forall>r \<in> snd ` set (racers g). P r"
  have "\<forall>r \<in> snd ` set (finish_update cfg nm (racers g)). P r"
    by (rule finish_update_preserves [where P = P]) (erule rel, rule a)
  with Some p show ?thesis by (simp add: check_win_def)
qed

lemma check_all_traits_preserves:
  assumes trait: "\<And>r r'. P r \<Longrightarrow> check_trait_conditions cfg r = Inr r' \<Longrightarrow> P r'"
  shows "check_all_traits cfg rs = Inr rs' \<Longrightarrow> \<forall>r \<in> snd ` set rs. P r \<Longrightarrow> \<forall>r \<in> snd ` set rs'. P r"
proof (induction rs arbitrary: rs')
  case Nil
  then show ?case by simp
next
  case (Cons p rs)
  obtain nm r where p: "p = (nm, r)" by (cases p)
  from Cons.prems(1) p obtain r' rest' where
    a: "check_trait_conditions cfg r = Inr r'" and b: "check_all_traits cfg rs = Inr rest'"
    and c: "rs' = (nm, r') # rest'"
    by (auto split: sum.splits)
  have "P r" and Prs: "\<forall>r \<in> snd ` set rs. P r"
    using Cons.prems(2) p by simp_all
  then have "P r'" using trait a by blast
  moreover have "\<forall>r \<in> snd ` set rest'. P r" by (rule Cons.IH [OF b Prs])
  ultimately show ?case using c by simp
qed

lemma run_step_cases:
  assumes "run_step cfg rnd pa pt g = Inr (b, g')"
  shows "(game_over g \<and> b \<and> g' = g) \<or>
    (\<not> game_over g \<and> (\<exists>actions gs2 rs3 new_obstacles rs4 rs7 g6.
       execute_actions cfg rnd actions (racers g) (get_state (g\<lparr> step_count := step_count g + 1 \<rparr>)) = Inr gs2
       \<and> process_events cfg (pending_events gs2) (gs_racers gs2) = Inr rs3
       \<and> check_obstacles cfg (map (\<lambda>(nm, r). (nm, position r)) (racers g)) (gs_obstacles gs2) rs3
            = Inr (new_obstacles, rs4)
       \<and> g6 = check_win cfg
                 (g\<lparr> step_count := step_count g + 1,
                     last_positions := map (\<lambda>(nm, r). (nm, position r)) (racers g),
                     obstacles := new_obstacles,
                     racers := check_overtakes cfg (map (\<lambda>(nm, r). (nm, position r)) (racers g)) rs4 \<rparr>)
       \<and> check_all_traits cfg (racers g6) = Inr rs7
       \<and> b = game_over g6 \<and> g' = g6\<lparr> racers := rs7 \<rparr>))"
proof (cases "game_over g")
  case True
  with assms show ?thesis by (simp add: run_step_def)
next
  case False
  define g1 where "g1 = g\<lparr> step_count := step_count g + 1 \<rparr>"
  define lp where "lp = map (\<lambda>(nm, r). (nm, position r)) (racers g)"
  have r1: "racers g1 = racers g" by (simp add: g1_def)
  note rs = run_step_def Let_def g1_def [symmetric] r1 lp_def [symmetric]
  obtain actions where a1: "decide_all cfg rnd pa pt (get_state g1) (racers g) [] = Inr actions"
    using assms False unfolding rs by (cases "decide_all cfg rnd pa pt (get_state g1) (racers g) []") simp_all
  obtain gs2 where a2: "execute_actions cfg rnd actions (racers g) (get_state g1) = Inr gs2"
    using assms False a1 unfolding rs
    by (cases "execute_actions cfg rnd actions (racers g) (get_state g1)") simp_all
  obtain rs3 where a3: "process_events cfg (pending_events gs2) (gs_racers gs2) = Inr rs3"
    using assms False a1 a2 unfolding rs
    by (cases "process_events cfg (pending_events gs2) (gs_racers gs2)") simp_all
  obtain new_obstacles rs4 where a4: "check_obstacles cfg lp (gs_obstacles gs2) rs3 = Inr (new_obstacles, rs4)"
    using assms False a1 a2 a3 unfolding rs
    by (cases "check_obstacles cfg lp (gs_obstacles gs2) rs3") auto
  define g6 where "g6 = check_win cfg (g1\<lparr> last_positions := lp, obstacles := new_obstacles,
                      racers := check_overtakes cfg lp rs4 \<rparr>)"
  obtain rs7 where a7: "check_all_traits cfg (racers g6) = Inr rs7"
    using assms False a1 a2 a3 a4 unfolding rs g6_def
    by (cases "check_all_traits cfg (racers (check_win cfg (g1\<lparr> last_positions := lp, obstacles := new_obstacles,
                      racers := check_overtakes cfg lp rs4 \<rparr>)))") simp_all
  have res: "b = game_over g6 \<and> g' = g6\<lparr> racers := rs7 \<rparr>"
    using assms False a1 a2 a3 a4 a7 unfolding rs g6_def by simp
  have "g6 = check_win cfg
                 (g\<lparr> step_count := step_count g + 1,
                     last_positions := map (\<lambda>(nm, r). (nm, position r)) (racers g),
                     obstacles := new_obstacles,
                     racers := check_overtakes cfg (map (\<lambda>(nm, r). (nm, position r)) (racers g)) rs4 \<rparr>)"
    by (simp add: g6_def g1_def lp_def)
  with False a2 a3 a4 a7 res show ?thesis
    unfolding g1_def lp_def by blast
qed

subsection \<open>The phases of a step keep what every racer keeps\<close>

lemma run_step_preserves:
  assumes step: "run_step cfg rnd pa pt g = Inr (b, g')"
    and P: "\<forall>r \<in> snd ` set (racers g). P r"
    and use: "\<And>tgt gs r b r' gs'. P r \<Longrightarrow> use_item cfg tgt gs r = Inr (b, r', gs') \<Longrightarrow> P r'"
    and upd: "\<And>d gs r r'. P r \<Longrightarrow> update_step cfg d gs r = Inr r' \<Longrightarrow> P r'"
    and hit: "\<And>a it r r'. P r \<Longrightarrow> apply_hit cfg a it r = Inr r' \<Longrightarrow> P r'"
    and rel: "\<And>n c r. P r \<Longrightarrow> P (update_relationship n c r)"
    and trait: "\<And>r r'. P r \<Longrightarrow> check_trait_conditions cfg r = Inr r' \<Longrightarrow> P r'"
  shows "\<forall>r \<in> snd ` set (racers g'). P r"
proof -
  from run_step_cases [OF step] show ?thesis
  proof (elim disjE conjE exE)
    assume "g' = g"
    with P show ?thesis by simp
  next
    fix actions gs2 rs3 new_obstacles rs4 rs7 g6
    assume s2: "execute_actions cfg rnd actions (racers g) (get_state (g\<lparr> step_count := step_count g + 1 \<rparr>)) = Inr gs2"
      and s3: "process_events cfg (pending_events gs2) (gs_racers gs2) = Inr rs3"
      and s4: "check_obstacles cfg (map (\<lambda>(nm, r). (nm, position r)) (racers g)) (gs_obstacles gs2) rs3
            = Inr (new_obstacles, rs4)"
      and g6: "g6 = check_win cfg
                 (g\<lparr> step_count := step_count g + 1,
                     last_positions := map (\<lambda>(nm, r). (nm, position r)) (racers g),
                     obstacles := new_obstacles,
                     racers := check_overtakes cfg (map (\<lambda>(nm, r). (nm, position r)) (racers g)) rs4 \<rparr>)"
      and s7: "check_all_traits cfg (racers g6) = Inr rs7"
      and g': "g' = g6\<lparr> racers := rs7 \<rparr>"
    have P0: "\<forall>r \<in> snd ` set (gs_racers (get_state (g\<lparr> step_count := step_count g + 1 \<rparr>))). P r"
      using P by (simp add: get_state_def)
    have P2: "\<forall>r \<in> snd ` set (gs_racers gs2). P r"
      by (rule execute_actions_preserves [where P = P and cfg = cfg, OF use upd s2 P P0])
    have P3: "\<forall>r \<in> snd ` set rs3. P r"
      by (rule process_events_preserves [where P = P and cfg = cfg, OF hit s3 P2])
    have P4: "\<forall>r \<in> snd ` set rs4. P r"
      by (rule check_obstacles_preserves [where P = P and cfg = cfg, OF hit s4 P3])
    have P5: "\<forall>r \<in> snd ` set (check_overtakes cfg (map (\<lambda>(nm, r). (nm, position r)) (racers g)) rs4). P r"
      by (rule check_overtakes_preserves [where P = P, OF rel P4])
    define g5 where "g5 = g\<lparr> step_count := step_count g + 1,
                     last_positions := map (\<lambda>(nm, r). (nm, position r)) (racers g),
                     obstacles := new_obstacles,
                     racers := check_overtakes cfg (map (\<lambda>(nm, r). (nm, position r)) (racers g)) rs4 \<rparr>"
    have r5: "racers g5 = check_overtakes cfg (map (\<lambda>(nm, r). (nm, position r)) (racers g)) rs4"
      by (simp add: g5_def)
    have P5': "\<forall>r \<in> snd ` set (racers g5). P r"
      unfolding r5 by (rule P5)
    have P6: "\<forall>r \<in> snd ` set (racers g6). P r"
      unfolding g6 g5_def [symmetric]
      by (rule check_win_preserves [where P = P, OF rel P5'])
    have P7: "\<forall>r \<in> snd ` set rs7. P r"
      by (rule check_all_traits_preserves [where P = P and cfg = cfg, OF trait s7 P6])
    from P7 show ?thesis by (simp add: g')
  qed
qed

lemma rel_bounded_update_relationship: "rel_bounded r \<Longrightarrow> rel_bounded (update_relationship n c r)"
proof -
  assume a: "rel_bounded r"
  show ?thesis
  proof (cases "map_of (relationships r) n")
    case None
    with a show ?thesis by (simp add: update_relationship_def)
  next
    case (Some s)
    have "\<forall>x \<in> snd ` set (AList.update n (max (- 10) (min 10 (s + c))) (relationships r)). - 10 \<le> x \<and> x \<le> 10"
      by (rule all_update [where P = "\<lambda>x. - 10 \<le> x \<and> x \<le> 10"]) (use a in \<open>simp_all add: rel_bounded_def\<close>)
    with Some show ?thesis by (simp add: update_relationship_def rel_bounded_def)
  qed
qed

lemma check_trait_conditions_relationships:
  "check_trait_conditions cfg r = Inr r' \<Longrightarrow> relationships r' = relationships r"
  by (auto simp: check_trait_conditions_def add_trait_def Let_def split: sum.splits if_splits)

lemma use_item_relationships:
  "use_item cfg tgt gs r = Inr (b, r', gs') \<Longrightarrow> relationships r' = relationships r"
  by (auto simp: use_item_def emit_hit_def Let_def split: option.splits sum.splits item.splits if_splits)

lemma update_step_relationships:
  "update_step cfg d gs r = Inr r' \<Longrightarrow> relationships r' = relationships r"
  by (auto simp: update_step_def get_item_def Let_def split: option.splits sum.splits if_splits prod.splits)

lemma rel_bounded_cong: "relationships r' = relationships r \<Longrightarrow> rel_bounded r \<Longrightarrow> rel_bounded r'"
  by (simp add: rel_bounded_def)

lemma apply_hit_rel_bounded:
  assumes "rel_bounded r" and "apply_hit cfg a it r = Inr r'"
  shows "rel_bounded r'"
proof (cases "hit_timer r > 0")
  case True
  with assms show ?thesis by (simp add: apply_hit_def)
next
  case False
  from assms(2) False obtain n where l: "lookup (times_hit_by r) it = Inr n"
    by (cases "lookup (times_hit_by r) it") (simp_all add: apply_hit_def)
  define s1 where "s1 = r\<lparr> boost_timer := 0,
                     last_hit_by := a,
                     last_hit_by_item := Some (Some it),
                     times_hit_by := AList.update it (n + 1) (times_hit_by r) \<rparr>"
  define s2 where "s2 = (case a of
                  None \<Rightarrow> s1
                | Some x \<Rightarrow>
                    if truthy a
                    then s1\<lparr> hit_by_count := AList.update x (get0 (hit_by_count s1) x + 1) (hit_by_count s1) \<rparr>
                    else s1)"
  define s3 where "s3 = (if it = Green_Shell \<or> it = Red_Shell
                then s2\<lparr> hit_timer := shell_hit_duration cfg \<rparr>
                else if it = Banana then s2\<lparr> hit_timer := banana_hit_duration cfg \<rparr>
                else s2)"
  define s4 where "s4 = (case a of
                  None \<Rightarrow> s3
                | Some x \<Rightarrow>
                    if truthy a
                    then update_relationship x (nemesis_hit_relationship_penalty cfg) s3
                    else s3)"
  have t: "check_trait_conditions cfg s4 = Inr r'"
    using assms(2) False l unfolding apply_hit_def Let_def s4_def s3_def s2_def s1_def by simp
  have "relationships s3 = relationships r"
    by (simp add: s3_def s2_def s1_def split: option.splits)
  then have "rel_bounded s3" using assms(1) by (rule rel_bounded_cong)
  then have "rel_bounded s4"
    unfolding s4_def by (cases a) (simp_all add: rel_bounded_update_relationship)
  with check_trait_conditions_relationships [OF t] show ?thesis
    by (simp add: rel_bounded_def)
qed

lemma initialize_relationships_zero:
  "\<forall>s \<in> snd ` set (relationships r). s = 0 \<Longrightarrow>
   \<forall>s \<in> snd ` set (relationships (initialize_relationships names r)). s = 0"
proof (induction names arbitrary: r)
  case Nil
  then show ?case by simp
next
  case (Cons n names)
  have "\<forall>s \<in> snd ` set (AList.update n 0 (relationships r)). s = 0"
    by (rule all_update [where P = "\<lambda>s. s = 0"]) (use Cons.prems in simp_all)
  then have "\<forall>s \<in> snd ` set (relationships (if n \<noteq> name r
        then r\<lparr> relationships := AList.update n 0 (relationships r),
                   hit_by_count := AList.update n 0 (hit_by_count r),
                   hit_others_count := AList.update n 0 (hit_others_count r) \<rparr>
        else r)). s = 0"
    using Cons.prems by simp
  from Cons.IH [OF this] show ?case by simp
qed

lemma fold_update_all:
  assumes "\<And>nm. P (f nm)"
  shows "\<forall>r \<in> snd ` set rs. P r \<Longrightarrow> \<forall>r \<in> snd ` set (fold (\<lambda>nm. AList.update nm (f nm)) names rs). P r"
proof (induction names arbitrary: rs)
  case Nil
  then show ?case by simp
next
  case (Cons n names)
  have "\<forall>r \<in> snd ` set (AList.update n (f n) rs). P r"
    by (rule all_update [where P = P]) (rule assms, rule Cons.prems)
  from Cons.IH [OF this] show ?case by simp
qed

lemma Game_init_racers:
  assumes "\<And>nm player. P (Racer_init cfg (uniform nm) nm player)"
    and "\<And>names r. P r \<Longrightarrow> P (initialize_relationships names r)"
  shows "\<forall>r \<in> snd ` set (racers (Game_init cfg uniform)). P r"
proof -
  define rs0 where "rs0 = [(''Player'', Racer_init cfg (uniform ''Player'') ''Player'' (player_controlled cfg))]"
  define rs1 where "rs1 = fold (\<lambda>nm. AList.update nm (Racer_init cfg (uniform nm) nm False))
      (map (\<lambda>i. ''CPU_'' @ str_nat (i + 1)) [0..<nat (num_racers cfg - 1)]) rs0"
  have "\<forall>r \<in> snd ` set rs0. P r" by (simp add: rs0_def assms(1))
  then have 1: "\<forall>r \<in> snd ` set rs1. P r"
    unfolding rs1_def
    by (rule fold_update_all [where P = P and f = "\<lambda>nm. Racer_init cfg (uniform nm) nm False", rotated])
       (rule assms(1))
  have "racers (Game_init cfg uniform)
      = map (\<lambda>(nm, r). (nm, initialize_relationships (map (\<lambda>(nm, r). name r) rs1) r)) rs1"
    by (simp add: Game_init_def Let_def rs1_def rs0_def)
  then show ?thesis using 1 assms(2) by (auto simp: image_iff)
qed

lemma Game_init_rel_bounded: "\<forall>r \<in> snd ` set (racers (Game_init cfg uniform)). rel_bounded r"
proof -
  have "\<forall>r \<in> snd ` set (racers (Game_init cfg uniform)). \<forall>s \<in> snd ` set (relationships r). s = 0"
    by (rule Game_init_racers [where P = "\<lambda>r. \<forall>s \<in> snd ` set (relationships r). s = 0"])
       (simp add: Racer_init_def, rule initialize_relationships_zero)
  then show ?thesis by (auto simp: rel_bounded_def)
qed

lemma rel_command_racers:
  assumes "rel_command r1_name r2_name v g = Inr g'" and "\<forall>r \<in> snd ` set (racers g). P r"
    and "\<And>n c r. P r \<Longrightarrow> P (update_relationship n c r)"
  shows "\<forall>r \<in> snd ` set (racers g'). P r"
proof (cases "map_of (racers g) r1_name")
  case None
  with assms(1,2) show ?thesis by (auto simp: rel_command_def)
next
  case (Some r1)
  have "P r1" using Some assms(2) map_of_snd_set by fastforce
  then have P1: "P (set_relationship r2_name v r1)"
    unfolding set_relationship_def by (rule assms(3))
  have "\<forall>r \<in> snd ` set (AList.update r1_name (set_relationship r2_name v r1) (racers g)). P r"
    by (rule all_update [where P = P]) (rule P1, rule assms(2))
  with assms(1,2) Some show ?thesis
    by (auto simp: rel_command_def Let_def split: option.splits if_splits sum.splits)
qed

lemma give_command_racers:
  assumes "\<forall>r \<in> snd ` set (racers g). P r"
    and "\<And>r. P r \<Longrightarrow> P (r\<lparr> current_item := Some it \<rparr>)"
  shows "\<forall>r \<in> snd ` set (racers (give_command nm it g)). P r"
proof -
  have "\<forall>r \<in> snd ` set (AList.map_entry nm (\<lambda>r. r\<lparr> current_item := Some it \<rparr>) (racers g)). P r"
    by (rule all_map_entry [where P = P]) (erule assms(2), rule assms(1))
  then show ?thesis by (simp add: give_command_def)
qed

lemma reachable_rel_bounded: "reachable g \<Longrightarrow> \<forall>r \<in> snd ` set (racers g). rel_bounded r"
proof (induction rule: reachable.induct)
  case (init cfg uniform)
  show ?case by (rule Game_init_rel_bounded)
next
  case (step g cfg rnd player_action player_target over g')
  show ?case
  proof (rule run_step_preserves [where P = rel_bounded, OF step.hyps(2) step.IH])
    show "\<And>tgt gs r b r' gs'. rel_bounded r \<Longrightarrow> use_item cfg tgt gs r = Inr (b, r', gs') \<Longrightarrow> rel_bounded r'"
      using use_item_relationships rel_bounded_cong by blast
    show "\<And>d gs r r'. rel_bounded r \<Longrightarrow> update_step cfg d gs r = Inr r' \<Longrightarrow> rel_bounded r'"
      using update_step_relationships rel_bounded_cong by blast
    show "\<And>a it r r'. rel_bounded r \<Longrightarrow> apply_hit cfg a it r = Inr r' \<Longrightarrow> rel_bounded r'"
      by (rule apply_hit_rel_bounded)
    show "\<And>n c r. rel_bounded r \<Longrightarrow> rel_bounded (update_relationship n c r)"
      by (rule rel_bounded_update_relationship)
    show "\<And>r r'. rel_bounded r \<Longrightarrow> check_trait_conditions cfg r = Inr r' \<Longrightarrow> rel_bounded r'"
      using check_trait_conditions_relationships rel_bounded_cong by blast
  qed
next
  case (rel g r1_name r2_name v g')
  show ?case
    by (rule rel_command_racers [where P = rel_bounded, OF rel.hyps(2) rel.IH])
       (rule rel_bounded_update_relationship)
next
  case (give g racer_name item_to_give)
  show ?case
    by (rule give_command_racers [where P = rel_bounded, OF give.IH]) (simp add: rel_bounded_def)
qed

lemma str_nat_1: "str_nat 1 = ''1''" "str_nat (Suc 0) = ''1''"
  by (simp_all add: str_nat.simps)

lemma duel_racers: "racers duel = [(''Player'', duel_player), (''CPU_1'', duel_cpu)]"
  by (simp add: duel_def Game_init_def duel_cfg_def CONFIG_def duel_speed_def Let_def str_nat_1
      duel_player_def duel_cpu_def Racer_init_def)

lemma duel_player_fields:
  "name duel_player = ''Player''" "is_player duel_player" "position duel_player = 0"
  "base_speed duel_player = 12" "current_item duel_player = None"
  "hit_timer duel_player = 0" "boost_timer duel_player = 0"
  "relationships duel_player = [(''CPU_1'', 0)]"
  "last_hit_by_item duel_player = None"
  by (simp_all add: duel_player_def Racer_init_def)

lemma duel_cpu_fields:
  "name duel_cpu = ''CPU_1''" "\<not> is_player duel_cpu" "position duel_cpu = 0"
  "base_speed duel_cpu = 8" "current_item duel_cpu = None"
  "hit_timer duel_cpu = 0" "boost_timer duel_cpu = 0"
  "relationships duel_cpu = [(''Player'', 0)]"
  "last_hit_by_item duel_cpu = None"
  by (simp_all add: duel_cpu_def Racer_init_def)

lemma rel_duel: "rel_command ''Player'' ''CPU_1'' 42 duel
    = Inr (duel\<lparr> racers := [(''Player'', duel_player\<lparr> relationships := [(''CPU_1'', 10)] \<rparr>), (''CPU_1'', duel_cpu)] \<rparr>)"
  by (simp add: rel_command_def duel_racers set_relationship_def update_relationship_def get0_def
      lookup_def duel_player_fields)

(*PHASES*)
subsection \<open>Relationships\<close>

text \<open>
  C5. In every reachable game, every score of every racer's relationship map is in the
  range from \<open>-10\<close> to \<open>10\<close>: the constructor sets the scores to \<open>0\<close>, and the
  steps (hit, overtake and finish penalties) and the command \<^verbatim>\<open>rel\<close> change a score
  through \<^verbatim>\<open>update_relationship\<close> only, which clamps.
\<close>

theorem relationships_bounded:
  "reachable g \<Longrightarrow> map_of (racers g) nm = Some r \<Longrightarrow> map_of (relationships r) other = Some s \<Longrightarrow>
   - 10 \<le> s \<and> s \<le> 10"
proof -
  assume a: "reachable g" and b: "map_of (racers g) nm = Some r" and c: "map_of (relationships r) other = Some s"
  have "r \<in> snd ` set (racers g)" by (rule map_of_snd_set [OF b])
  with reachable_rel_bounded [OF a] have "rel_bounded r" by blast
  moreover have "s \<in> snd ` set (relationships r)" by (rule map_of_snd_set [OF c])
  ultimately show ?thesis by (auto simp: rel_bounded_def)
qed


theorem relationships_bounded_witness:
  "reachable (duel\<lparr> racers := [(''Player'', duel_player\<lparr> relationships := [(''CPU_1'', 10)] \<rparr>), (''CPU_1'', duel_cpu)] \<rparr>)
   \<and> map_of (racers (duel\<lparr> racers := [(''Player'', duel_player\<lparr> relationships := [(''CPU_1'', 10)] \<rparr>), (''CPU_1'', duel_cpu)] \<rparr>)) ''Player''
       = Some (duel_player\<lparr> relationships := [(''CPU_1'', 10)] \<rparr>)
   \<and> map_of (relationships (duel_player\<lparr> relationships := [(''CPU_1'', 10)] \<rparr>)) ''CPU_1'' = Some 10
   \<and> - 10 \<le> (10 :: int) \<and> (10 :: int) \<le> 10"
proof -
  have r: "reachable (duel\<lparr> racers := [(''Player'', duel_player\<lparr> relationships := [(''CPU_1'', 10)] \<rparr>), (''CPU_1'', duel_cpu)] \<rparr>)"
    by (rule reachable.rel [OF _ rel_duel]) (simp add: duel_def reachable.init)
  have m: "map_of (racers (duel\<lparr> racers := [(''Player'', duel_player\<lparr> relationships := [(''CPU_1'', 10)] \<rparr>), (''CPU_1'', duel_cpu)] \<rparr>)) ''Player''
       = Some (duel_player\<lparr> relationships := [(''CPU_1'', 10)] \<rparr>)"
    by simp
  have s: "map_of (relationships (duel_player\<lparr> relationships := [(''CPU_1'', 10)] \<rparr>)) ''CPU_1'' = Some 10"
    by simp
  from relationships_bounded [OF r m s] r m s show ?thesis by simp
qed


text \<open>
  C10. Setting the score towards a racer of the relationship map to \<open>v\<close>, by the update
  with the difference \<open>v - s\<close> to the current score \<open>s\<close>, and reading it afterwards
  gives \<open>v\<close> clamped to the range from \<open>-10\<close> to \<open>10\<close>.
\<close>

theorem set_relationship_round_trip:
  "map_of (relationships r) other = Some s \<Longrightarrow>
   lookup (relationships (set_relationship other v r)) other = Inr (max (- 10) (min 10 v))"
  by (simp add: set_relationship_def update_relationship_def get0_def lookup_update)

theorem set_relationship_round_trip_witness:
  "map_of (relationships racer_A) ''B'' = Some 0
   \<and> lookup (relationships (set_relationship ''B'' 42 racer_A)) ''B'' = Inr 10"
  using set_relationship_round_trip [of racer_A "''B''" 0 42]
  by (simp add: racer_A_fields)

subsection \<open>Hits\<close>

text \<open>
  C6. \<^verbatim>\<open>apply_hit\<close> on a racer whose hit timer is positive returns the racer as it
  was, whoever the attacker and whatever the item: no counter, timer, last-hit field,
  relationship or trait changes.
\<close>

theorem apply_hit_immune:
  "hit_timer r > 0 \<Longrightarrow> apply_hit cfg attacker_name item_type r = Inr r"
  by (simp add: apply_hit_def)

theorem apply_hit_immune_witness:
  "hit_timer (racer_A\<lparr> hit_timer := 2 \<rparr>) > 0
   \<and> apply_hit CONFIG (Some ''B'') Red_Shell (racer_A\<lparr> hit_timer := 2 \<rparr>)
       = Inr (racer_A\<lparr> hit_timer := 2 \<rparr>)"
  using apply_hit_immune [of "racer_A\<lparr> hit_timer := 2 \<rparr>" CONFIG "Some ''B''" Red_Shell]
  by simp

subsection \<open>Item use\<close>

text \<open>
  C7. \<^verbatim>\<open>use_item\<close> with an empty slot returns \<open>False\<close> and changes neither the racer
  nor the game state. With an item \<open>it\<close> in the slot (and its usage counter at \<open>n\<close>) it
  returns \<open>True\<close>, the slot is empty afterwards, the counter of \<open>it\<close> is \<open>n + 1\<close> and
  the counters of the other items are as before.
\<close>

theorem use_item_consumes:
  "(current_item r = None \<longrightarrow> use_item cfg tgt gs r = Inr (False, r, gs)) \<and>
   (\<forall>it n. current_item r = Some it \<and> map_of (item_uses r) it = Some n \<longrightarrow>
      (\<exists>r' gs'. use_item cfg tgt gs r = Inr (True, r', gs') \<and> current_item r' = None
         \<and> map_of (item_uses r') it = Some (n + 1)
         \<and> (\<forall>it'. it' \<noteq> it \<longrightarrow> map_of (item_uses r') it' = map_of (item_uses r) it')))"
proof (intro conjI allI impI)
  assume "current_item r = None"
  then show "use_item cfg tgt gs r = Inr (False, r, gs)"
    by (simp add: use_item_def)
next
  fix it n
  assume "current_item r = Some it \<and> map_of (item_uses r) it = Some n"
  then show "\<exists>r' gs'. use_item cfg tgt gs r = Inr (True, r', gs') \<and> current_item r' = None
         \<and> map_of (item_uses r') it = Some (n + 1)
         \<and> (\<forall>it'. it' \<noteq> it \<longrightarrow> map_of (item_uses r') it' = map_of (item_uses r) it')"
    by (cases it)
       (auto simp: use_item_def lookup_def emit_hit_def update_conv' Let_def split: option.splits)
qed

theorem use_item_consumes_witness:
  "current_item racer_A = None
   \<and> use_item CONFIG None state_AB racer_A = Inr (False, racer_A, state_AB)
   \<and> current_item (racer_A\<lparr> current_item := Some Boost \<rparr>) = Some Boost
   \<and> map_of (item_uses (racer_A\<lparr> current_item := Some Boost \<rparr>)) Boost = Some 0
   \<and> use_item CONFIG None state_AB (racer_A\<lparr> current_item := Some Boost \<rparr>)
       = Inr (True,
              racer_A\<lparr> item_uses := [(Boost, 1), (Green_Shell, 0), (Red_Shell, 0), (Banana, 0)],
                        boost_timer := 3 \<rparr>,
              state_AB)"
proof -
  have a: "current_item racer_A = None"
    by (simp add: racer_A_fields)
  have b: "current_item (racer_A\<lparr> current_item := Some Boost \<rparr>) = Some Boost
     \<and> map_of (item_uses (racer_A\<lparr> current_item := Some Boost \<rparr>)) Boost = Some 0"
    by (simp add: racer_A_fields)
  from use_item_consumes [of racer_A CONFIG None state_AB] a
  have 1: "use_item CONFIG None state_AB racer_A = Inr (False, racer_A, state_AB)"
    by blast
  from use_item_consumes [of "racer_A\<lparr> current_item := Some Boost \<rparr>" CONFIG None state_AB] b
  obtain r' gs' where
    2: "use_item CONFIG None state_AB (racer_A\<lparr> current_item := Some Boost \<rparr>) = Inr (True, r', gs')"
    by blast
  have 3: "use_item CONFIG None state_AB (racer_A\<lparr> current_item := Some Boost \<rparr>)
       = Inr (True,
              racer_A\<lparr> item_uses := [(Boost, 1), (Green_Shell, 0), (Red_Shell, 0), (Banana, 0)],
                        boost_timer := 3 \<rparr>,
              state_AB)"
    using a by (simp add: use_item_def lookup_def racer_A_fields CONFIG_def)
  from a b 1 3 show ?thesis by simp
qed

text \<open>
  C8. A Red Shell in the slot is consumed in every case. The hit event is appended and
  the attacker's counter for the target goes up by one if the target name is that of a
  racer of the game whose position is strictly greater than the attacker's; otherwise
  (no such racer, or a racer that is not ahead) the pending events and all the
  hit-others counters are as before.
\<close>

theorem red_shell_hits_only_ahead:
  assumes "current_item r = Some Red_Shell" and "map_of (item_uses r) Red_Shell = Some n"
  shows "\<exists>r' gs'. use_item cfg tgt gs r = Inr (True, r', gs') \<and> current_item r' = None \<and>
     (case racers_get gs tgt of
        None \<Rightarrow> pending_events gs' = pending_events gs \<and> hit_others_count r' = hit_others_count r
      | Some t \<Rightarrow>
          if position t > position r
          then pending_events gs' = pending_events gs @
                 [\<lparr> attacker = name r, target = name t, ev_item = Red_Shell \<rparr>]
               \<and> map_of (hit_others_count r') (name t) = Some (get0 (hit_others_count r) (name t) + 1)
          else pending_events gs' = pending_events gs \<and> hit_others_count r' = hit_others_count r)"
  using assms
  by (auto simp: use_item_def lookup_def emit_hit_def update_conv' Let_def split: option.splits)

theorem red_shell_hits_only_ahead_witness:
  "current_item (racer_A\<lparr> current_item := Some Red_Shell \<rparr>) = Some Red_Shell
   \<and> map_of (item_uses (racer_A\<lparr> current_item := Some Red_Shell \<rparr>)) Red_Shell = Some 0
   \<and> use_item CONFIG (Some ''B'') state_AB (racer_A\<lparr> current_item := Some Red_Shell \<rparr>)
       = Inr (True,
              racer_A\<lparr> item_uses := [(Boost, 0), (Green_Shell, 0), (Red_Shell, 1), (Banana, 0)],
                        hit_others_count := [(''B'', 1)] \<rparr>,
              state_AB\<lparr> pending_events :=
                [\<lparr> attacker = ''A'', target = ''B'', ev_item = Red_Shell \<rparr>] \<rparr>)
   \<and> use_item CONFIG (Some ''A'') state_AB (racer_A\<lparr> current_item := Some Red_Shell \<rparr>)
       = Inr (True,
              racer_A\<lparr> item_uses := [(Boost, 0), (Green_Shell, 0), (Red_Shell, 1), (Banana, 0)] \<rparr>,
              state_AB)"
proof -
  have h: "current_item (racer_A\<lparr> current_item := Some Red_Shell \<rparr>) = Some Red_Shell"
    "map_of (item_uses (racer_A\<lparr> current_item := Some Red_Shell \<rparr>)) Red_Shell = Some 0"
    by (simp_all add: racer_A_fields)
  from red_shell_hits_only_ahead [OF h, of CONFIG "Some ''B''" state_AB]
  obtain r' gs' where
    "use_item CONFIG (Some ''B'') state_AB (racer_A\<lparr> current_item := Some Red_Shell \<rparr>) = Inr (True, r', gs')"
    by blast
  have "use_item CONFIG (Some ''B'') state_AB (racer_A\<lparr> current_item := Some Red_Shell \<rparr>)
       = Inr (True,
              racer_A\<lparr> item_uses := [(Boost, 0), (Green_Shell, 0), (Red_Shell, 1), (Banana, 0)],
                        hit_others_count := [(''B'', 1)] \<rparr>,
              state_AB\<lparr> pending_events :=
                [\<lparr> attacker = ''A'', target = ''B'', ev_item = Red_Shell \<rparr>] \<rparr>)"
    using h
    by (simp add: use_item_def lookup_def emit_hit_def racers_get_def get0_def state_AB_def
        racer_A_fields racer_B_fields)
  moreover have "use_item CONFIG (Some ''A'') state_AB (racer_A\<lparr> current_item := Some Red_Shell \<rparr>)
       = Inr (True,
              racer_A\<lparr> item_uses := [(Boost, 0), (Green_Shell, 0), (Red_Shell, 1), (Banana, 0)] \<rparr>,
              state_AB)"
    using h
    by (simp add: use_item_def lookup_def emit_hit_def racers_get_def get0_def state_AB_def
        racer_A_fields racer_B_fields)
  ultimately show ?thesis using h by simp
qed

end
